theory Spec2Isabelle
  imports Main
begin

section \<open>Python string primitives used by the two workflow scripts\<close>

text \<open>
  A Python \<open>str\<close> is modelled as a \<open>string\<close>; a \<open>char\<close> stands for a code point
  below 256. \<open>isspace\<close> lists the code points of that range for which Python's
  \<open>str.isspace\<close> holds; \<open>str.strip()\<close> with no argument removes exactly those from
  both ends.
\<close>

definition isspace :: "char \<Rightarrow> bool" where
  "isspace c = (c \<in> set [CHR 0x09, CHR 0x0A, CHR 0x0B, CHR 0x0C, CHR 0x0D,
                         CHR 0x1C, CHR 0x1D, CHR 0x1E, CHR 0x1F, CHR 0x20,
                         CHR 0x85, CHR 0xA0])"

definition py_strip :: "string \<Rightarrow> string" where
  "py_strip s = rev (dropWhile isspace (rev (dropWhile isspace s)))"

text \<open>\<open>p.rstrip('/')\<close>: every trailing separator is removed.\<close>

definition rstrip_slash :: "string \<Rightarrow> string" where
  "rstrip_slash s = rev (dropWhile (\<lambda>c. c = CHR ''/'') (rev s))"

definition startswith :: "string \<Rightarrow> string \<Rightarrow> bool" where
  "startswith s pre = (take (length pre) s = pre)"

definition endswith :: "string \<Rightarrow> string \<Rightarrow> bool" where
  "endswith s suf = (length suf \<le> length s \<and> drop (length s - length suf) s = suf)"

text \<open>\<open>s.split('\n')\<close>: one field per newline plus one, empty fields kept.\<close>

fun split_nl :: "string \<Rightarrow> string list" where
  "split_nl [] = [[]]"
| "split_nl (c # cs) =
     (if c = CHR 0x0A then [] # split_nl cs
      else (case split_nl cs of
              w # ws \<Rightarrow> (c # w) # ws
            | [] \<Rightarrow> [[c]]))"

text \<open>Truthiness of a value that is \<open>None\<close> or a \<open>str\<close>.\<close>

fun truthy :: "string option \<Rightarrow> bool" where
  "truthy None = False"
| "truthy (Some s) = (s \<noteq> [])"

text \<open>The number of separators a path ends with.\<close>

definition trailing_seps :: "string \<Rightarrow> nat" where
  "trailing_seps s = length (takeWhile (\<lambda>c. c = CHR ''/'') (rev s))"

section \<open>copy\_to\_server.py: the destination completer of \<open>ServerCopyDialog\<close>\<close>

subsection \<open>Data\<close>

text \<open>A host entry as \<open>SSHConfigParser.parse\<close> builds it: \<open>name\<close> is always a
  string, the other three keys hold \<open>None\<close> or a string.\<close>

record host =
  name :: string
  hostname :: "string option"
  user :: "string option"
  identity_file :: "string option"

text \<open>The fields of \<open>ServerCopyDialog\<close> the completer reads and writes.
  \<open>dest_var\<close> is the text of the destination field, \<open>dest_combo_values\<close> the option
  list of the combobox (\<open>self.dest_combo['values']\<close>) and \<open>dest_combo_cursor\<close> its
  insertion cursor.\<close>

record dialog =
  selected_host :: "host option"
  destination_paths :: "string list"
  remote_home :: "string option"
  dest_var :: string
  dest_combo_values :: "string list"
  dest_combo_cursor :: nat

text \<open>\<open>subprocess.run\<close> either returns a completed process or raises; both exceptions
  are subclasses of \<open>Exception\<close>.\<close>

datatype py_exception = TimeoutExpired | OSError

datatype completed_process = CompletedProcess (returncode: int) (stdout: string)

type_synonym subprocess_run = "string list \<Rightarrow> py_exception + completed_process"

text \<open>What a worker thread hands to the main thread through \<open>self.root.after(0, ...)\<close>.\<close>

datatype callback =
  UpdateAndShowDropdown "string list"
| UpdateDestinationValues "string list"

subsection \<open>The ssh command line\<close>

text \<open>The argument vector both listing functions build before they append the remote
  command (lines 460--480 and 543--563 are the same code). \<open>path_exists\<close> stands for
  \<open>os.path.exists\<close>.\<close>

definition ssh_cmd_prefix :: "(string \<Rightarrow> bool) \<Rightarrow> host \<Rightarrow> string list" where
  "ssh_cmd_prefix path_exists h =
     (let hostname' = (if truthy (hostname h) then the (hostname h) else name h)
      in [''ssh'']
         @ (if truthy (identity_file h) \<and> path_exists (the (identity_file h))
            then [''-i'', the (identity_file h)] else [])
         @ [''-o'', ''BatchMode=yes'', ''-o'', ''ConnectTimeout=5'',
            ''-o'', ''StrictHostKeyChecking=no'']
         @ [if truthy (user h) then the (user h) @ ''@'' @ hostname' else hostname'])"

text \<open>The remote command of \<open>fetch_and_filter_paths\<close> (lines 486--489).\<close>

definition filter_cmd :: "string \<Rightarrow> string \<Rightarrow> string" where
  "filter_cmd dir_path prefix =
     (if prefix \<noteq> [] then ''ls -1d '' @ dir_path @ prefix @ ''*/ 2>/dev/null | head -30''
      else ''ls -1d '' @ dir_path @ ''*/ 2>/dev/null | head -30'')"

text \<open>The remote command of \<open>fetch_remote_paths\<close> (line 566).\<close>

definition remote_cmd :: "string \<Rightarrow> string" where
  "remote_cmd remote_path = ''ls -1dp '' @ remote_path @ ''*/ 2>/dev/null | head -20''"

subsection \<open>The two listing loops\<close>

text \<open>The loop of \<open>fetch_and_filter_paths\<close> (lines 503--514).\<close>

fun filter_loop :: "bool \<Rightarrow> string option \<Rightarrow> string list \<Rightarrow> string list" where
  "filter_loop using_tilde home [] = []"
| "filter_loop using_tilde home (raw # rest) =
     (let p = rstrip_slash (py_strip raw);
          p = (if using_tilde \<and> p \<noteq> [] \<and> truthy home
               then (if startswith p (the home)
                     then CHR ''~'' # drop (length (the home)) p else p)
               else p)
      in (if p \<noteq> [] then [p @ ''/''] else []) @ filter_loop using_tilde home rest)"

text \<open>The loop of \<open>fetch_remote_paths\<close> (lines 578--588).\<close>

fun remote_loop :: "bool \<Rightarrow> string option \<Rightarrow> string list \<Rightarrow> string list" where
  "remote_loop using_tilde home [] = []"
| "remote_loop using_tilde home (raw # rest) =
     (let p = rstrip_slash (py_strip raw);
          p = (if using_tilde \<and> p \<noteq> [] \<and> truthy home \<and> startswith p (the home)
               then CHR ''~'' # drop (length (the home)) p else p)
      in (if p \<noteq> [] then [p @ ''/''] else []) @ remote_loop using_tilde home rest)"

subsection \<open>The worker functions\<close>

text \<open>\<open>fetch_and_filter_paths\<close> (lines 455--520). The result is \<open>Inl e\<close> when
  exception \<open>e\<close> leaves the function and \<open>Inr cb\<close> when it returns, \<open>cb\<close> being the
  callback it scheduled with \<open>self.root.after\<close>, if any. The call of \<open>subprocess.run\<close>
  stands in a \<open>try\<close> whose handler, \<open>except Exception\<close>, prints the exception and lets
  the function return: the branch \<open>Inl e\<close> of the call below.\<close>

definition fetch_and_filter_paths ::
  "(string \<Rightarrow> bool) \<Rightarrow> subprocess_run \<Rightarrow> dialog \<Rightarrow> string \<Rightarrow> string
     \<Rightarrow> py_exception + callback option" where
  "fetch_and_filter_paths path_exists run s dir_path prefix =
     (case selected_host s of
        None \<Rightarrow> Inr None
      | Some h \<Rightarrow>
          (let using_tilde = startswith (dest_var s) ''~/'';
               ssh_cmd = ssh_cmd_prefix path_exists h @ [filter_cmd dir_path prefix]
           in case run ssh_cmd of
                Inl e \<Rightarrow> Inr None
              | Inr result \<Rightarrow>
                  if returncode result = 0 \<and> py_strip (stdout result) \<noteq> [] then
                    (let paths = filter_loop using_tilde (remote_home s)
                                   (split_nl (py_strip (stdout result)))
                     in if paths \<noteq> [] then Inr (Some (UpdateAndShowDropdown paths))
                        else Inr None)
                  else Inr None))"

text \<open>\<open>fetch_remote_paths\<close> (lines 535--593), with the same \<open>try\<close>. It schedules
  its callback whether or not the loop kept a path.\<close>

definition fetch_remote_paths ::
  "(string \<Rightarrow> bool) \<Rightarrow> subprocess_run \<Rightarrow> dialog \<Rightarrow> string
     \<Rightarrow> py_exception + callback option" where
  "fetch_remote_paths path_exists run s remote_path =
     (case selected_host s of
        None \<Rightarrow> Inr None
      | Some h \<Rightarrow>
          (let using_tilde = startswith remote_path ''~/'';
               ssh_cmd = ssh_cmd_prefix path_exists h @ [remote_cmd remote_path]
           in case run ssh_cmd of
                Inl e \<Rightarrow> Inr None
              | Inr result \<Rightarrow>
                  if returncode result = 0 \<and> py_strip (stdout result) \<noteq> [] then
                    (let paths = remote_loop using_tilde (remote_home s)
                                   (split_nl (py_strip (stdout result)))
                     in Inr (Some (UpdateDestinationValues paths)))
                  else Inr None))"

subsection \<open>The main-thread callbacks\<close>

text \<open>\<open>update_and_show_dropdown\<close> (lines 595--608) saves the cursor, writes the list and
  restores the cursor; \<open>update_destination_values\<close> (lines 610--614) writes the list.
  Both do so only for a list that is not empty.\<close>

definition update_and_show_dropdown :: "dialog \<Rightarrow> string list \<Rightarrow> dialog" where
  "update_and_show_dropdown s paths =
     (if paths \<noteq> [] then
        (let cursor_pos = dest_combo_cursor s
         in s\<lparr>destination_paths := paths, dest_combo_values := paths,
              dest_combo_cursor := cursor_pos\<rparr>)
      else s)"

definition update_destination_values :: "dialog \<Rightarrow> string list \<Rightarrow> dialog" where
  "update_destination_values s paths =
     (if paths \<noteq> [] then s\<lparr>destination_paths := paths, dest_combo_values := paths\<rparr>
      else s)"

text \<open>The loop of \<open>apply_home_replacement_to_paths\<close> (lines 621--635).\<close>

fun replacement_loop :: "string \<Rightarrow> string list \<Rightarrow> string list" where
  "replacement_loop home [] = []"
| "replacement_loop home (p0 # rest) =
     (let p = rstrip_slash p0
      in if startswith p ''~'' then (p @ ''/'') # replacement_loop home rest
         else (let p = (if startswith p home then CHR ''~'' # drop (length home) p else p)
               in (p @ ''/'') # replacement_loop home rest))"

text \<open>\<open>apply_home_replacement_to_paths\<close> (lines 616--645): after the loop it also
  rewrites the text of the destination field when that text starts with the home
  directory.\<close>

definition apply_home_replacement_to_paths :: "dialog \<Rightarrow> dialog" where
  "apply_home_replacement_to_paths s =
     (if \<not> truthy (remote_home s) \<or> destination_paths s = [] then s
      else
        (let home = the (remote_home s);
             updated_paths = replacement_loop home (destination_paths s);
             s = s\<lparr>destination_paths := updated_paths, dest_combo_values := updated_paths\<rparr>;
             current = dest_var s
         in if current \<noteq> [] \<and> \<not> startswith current ''~'' \<and> startswith current home
            then s\<lparr>dest_var := CHR ''~'' # drop (length home) current\<rparr>
            else s))"

text \<open>The main thread running a scheduled callback, and a worker's whole effect on the
  dialog: the callback it scheduled, if any, is run.\<close>

fun run_callback :: "dialog \<Rightarrow> callback \<Rightarrow> dialog" where
  "run_callback s (UpdateAndShowDropdown paths) = update_and_show_dropdown s paths"
| "run_callback s (UpdateDestinationValues paths) = update_destination_values s paths"

fun deliver :: "dialog \<Rightarrow> py_exception + callback option \<Rightarrow> dialog" where
  "deliver s (Inr (Some cb)) = run_callback s cb"
| "deliver s _ = s"

text \<open>The candidates a worker hands over: the path list of its callback, none when it
  schedules nothing.\<close>

fun candidates :: "py_exception + callback option \<Rightarrow> string list" where
  "candidates (Inr (Some (UpdateAndShowDropdown paths))) = paths"
| "candidates (Inr (Some (UpdateDestinationValues paths))) = paths"
| "candidates _ = []"

section \<open>add\_to\_music.py: the move into the import directory\<close>

subsection \<open>Library functions\<close>

text \<open>\<open>os.path.join\<close> of two components (posixpath).\<close>

definition path_join :: "string \<Rightarrow> string \<Rightarrow> string" where
  "path_join a b =
     (if startswith b ''/'' then b
      else if a = [] \<or> endswith a ''/'' then a @ b
      else a @ ''/'' @ b)"

text \<open>\<open>str.rfind\<close> of one character: the last index, or \<open>-1\<close>.\<close>

fun rfind :: "char \<Rightarrow> string \<Rightarrow> int" where
  "rfind c [] = - 1"
| "rfind c (x # xs) =
     (let r = rfind c xs
      in if 0 \<le> r then r + 1 else if x = c then 0 else - 1)"

text \<open>\<open>os.path.splitext\<close> (posixpath): the extension starts at the last dot of the
  last component, unless only dots come before it there.\<close>

definition splitext :: "string \<Rightarrow> string \<times> string" where
  "splitext p =
     (let sepIndex = rfind (CHR ''/'') p;
          dotIndex = rfind (CHR ''.'') p
      in if sepIndex < dotIndex \<and>
            list_ex (\<lambda>c. c \<noteq> CHR ''.'')
              (take (nat (dotIndex - (sepIndex + 1))) (drop (nat (sepIndex + 1)) p))
         then (take (nat dotIndex) p, drop (nat dotIndex) p)
         else (p, []))"

text \<open>The decimal rendering of the counter inside the f-string.\<close>

definition digit_char :: "nat \<Rightarrow> char" where
  "digit_char d = char_of (48 + d)"

fun str_of_nat :: "nat \<Rightarrow> string" where
  "str_of_nat n =
     (if n < 10 then [digit_char n]
      else str_of_nat (n div 10) @ [digit_char (n mod 10)])"

declare str_of_nat.simps [simp del]

subsection \<open>The file system\<close>

text \<open>The files that exist, each path with its content. \<open>shutil.move\<close> onto a
  path that exists replaces the file there, as \<open>os.rename\<close> does; it raises when the
  source is missing.\<close>

type_synonym filesystem = "(string \<times> string) list"

definition os_path_exists :: "filesystem \<Rightarrow> string \<Rightarrow> bool" where
  "os_path_exists fs p = (map_of fs p \<noteq> None)"

definition shutil_move :: "filesystem \<Rightarrow> string \<Rightarrow> string \<Rightarrow> py_exception + filesystem" where
  "shutil_move fs src dst =
     (case map_of fs src of
        None \<Rightarrow> Inl OSError
      | Some content \<Rightarrow>
          Inr ((dst, content) # filter (\<lambda>e. fst e \<noteq> src \<and> fst e \<noteq> dst) fs))"

subsection \<open>Choosing the destination (lines 427--435 of \<open>process_audio_file\<close>)\<close>

text \<open>The name the loop tries at a given counter.\<close>

definition numbered_name :: "string \<Rightarrow> string \<Rightarrow> string \<Rightarrow> nat \<Rightarrow> string" where
  "numbered_name dir base ext counter = path_join dir (base @ ''_'' @ str_of_nat counter @ ext)"

text \<open>Distinct counters give distinct names, so only finitely many numbered names
  exist in a file system; the loop below terminates for that reason.\<close>

definition digit_val :: "char \<Rightarrow> nat" where
  "digit_val c = of_char c - 48"

lemma digit_val_digit_char: "d < 10 \<Longrightarrow> digit_val (digit_char d) = d"
  by (simp add: digit_val_def digit_char_def)

lemma nat_of_str_of_nat:
  "foldl (\<lambda>a c. 10 * a + digit_val c) 0 (str_of_nat n) = n"
proof (induction n rule: str_of_nat.induct)
  case (1 n)
  show ?case
  proof (cases "n < 10")
    case True
    then show ?thesis by (subst str_of_nat.simps) (simp add: digit_val_digit_char)
  next
    case False
    then have "foldl (\<lambda>a c. 10 * a + digit_val c) 0 (str_of_nat (n div 10)) = n div 10"
      using "1.IH" by simp
    with False show ?thesis
      by (subst str_of_nat.simps) (simp add: digit_val_digit_char)
  qed
qed

lemma str_of_nat_inj: "str_of_nat m = str_of_nat n \<Longrightarrow> m = n"
  by (metis nat_of_str_of_nat)

lemma path_join_inj:
  "startswith b ''/'' = startswith b' ''/'' \<Longrightarrow> path_join a b = path_join a b' \<Longrightarrow> b = b'"
  by (auto simp: path_join_def split: if_splits)

lemma startswith_numbered:
  "startswith (base @ ''_'' @ x) ''/'' = startswith (base @ ''_'' @ y) ''/''"
  by (cases base) (simp_all add: startswith_def)

lemma numbered_name_inj: "inj (numbered_name dir base ext)"
proof (rule injI)
  fix m n assume "numbered_name dir base ext m = numbered_name dir base ext n"
  then have "base @ ''_'' @ str_of_nat m @ ext = base @ ''_'' @ str_of_nat n @ ext"
    unfolding numbered_name_def using path_join_inj startswith_numbered by blast
  then show "m = n" using str_of_nat_inj by simp
qed

lemma finite_numbered_existing:
  "finite {k. os_path_exists fs (numbered_name dir base ext k)}"
proof -
  have "{k. os_path_exists fs (numbered_name dir base ext k)}
          = numbered_name dir base ext -` dom (map_of fs)"
    by (auto simp: os_path_exists_def)
  then show ?thesis
    by (simp add: finite_vimageI numbered_name_inj finite_dom_map_of)
qed

text \<open>The \<open>while os.path.exists(destination)\<close> loop (lines 433--435).\<close>

function unique_destination ::
  "filesystem \<Rightarrow> string \<Rightarrow> string \<Rightarrow> string \<Rightarrow> string \<Rightarrow> nat \<Rightarrow> string" where
  "unique_destination fs dir base ext destination counter =
     (if os_path_exists fs destination
      then unique_destination fs dir base ext
             (path_join dir (base @ ''_'' @ str_of_nat counter @ ext)) (counter + 1)
      else destination)"
  by pat_completeness auto
termination
proof (relation "measure (\<lambda>(fs, dir, base, ext, destination, counter).
          card {k. counter \<le> k \<and> os_path_exists fs (numbered_name dir base ext k)}
          + (if os_path_exists fs destination then 1 else 0))")
  show "wf (measure (\<lambda>(fs, dir, base, ext, destination, counter).
          card {k. counter \<le> k \<and> os_path_exists fs (numbered_name dir base ext k)}
          + (if os_path_exists fs destination then 1 else 0)))"
    by simp
next
  fix fs :: filesystem and dir base ext destination :: string and counter :: nat
  assume ex: "os_path_exists fs destination"
  let ?A = "\<lambda>c. {k. c \<le> k \<and> os_path_exists fs (numbered_name dir base ext k)}"
  have fin: "finite (?A c)" for c
    by (rule finite_subset [OF _ finite_numbered_existing [of fs dir base ext]]) auto
  have "card (?A (counter + 1))
          + (if os_path_exists fs (numbered_name dir base ext counter) then 1 else 0)
        = card (?A counter)"
  proof (cases "os_path_exists fs (numbered_name dir base ext counter)")
    case True
    have "?A counter = insert counter (?A (counter + 1))"
      using True by (auto simp: le_Suc_eq)
    moreover have "counter \<notin> ?A (counter + 1)" by simp
    ultimately show ?thesis using True fin [of "counter + 1"] by simp
  next
    case False
    have "?A counter = ?A (counter + 1)"
      using False by (auto simp: le_Suc_eq) (metis Suc_leI le_neq_implies_less)
    then show ?thesis using False by simp
  qed
  then show "((fs, dir, base, ext, path_join dir (base @ ''_'' @ str_of_nat counter @ ext),
               counter + 1),
              (fs, dir, base, ext, destination, counter))
            \<in> measure (\<lambda>(fs, dir, base, ext, destination, counter).
                card {k. counter \<le> k \<and> os_path_exists fs (numbered_name dir base ext k)}
                + (if os_path_exists fs destination then 1 else 0))"
    using ex by (simp add: numbered_name_def)
qed

declare unique_destination.simps [simp del]

text \<open>Lines 427--435: the destination \<open>process_audio_file\<close> settles on. \<open>import_dir\<close>
  is \<open>MUSIC_IMPORT_DIR\<close>.\<close>

definition choose_destination :: "filesystem \<Rightarrow> string \<Rightarrow> string \<Rightarrow> string" where
  "choose_destination fs import_dir filename =
     (let destination = path_join import_dir filename
      in if os_path_exists fs destination then
           (case splitext filename of
              (base, ext) \<Rightarrow> unique_destination fs import_dir base ext destination 1)
         else destination)"

text \<open>Lines 427--444: the move itself; the result is the file system afterwards and the
  value \<open>process_audio_file\<close> returns.\<close>

definition move_to_import_dir ::
  "filesystem \<Rightarrow> string \<Rightarrow> string \<Rightarrow> string \<Rightarrow> filesystem \<times> bool" where
  "move_to_import_dir fs import_dir file_path filename =
     (let destination = choose_destination fs import_dir filename
      in case shutil_move fs file_path destination of
           Inl e \<Rightarrow> (fs, False)
         | Inr fs' \<Rightarrow> (fs', True))"

section \<open>Properties and example data\<close>

text \<open>A candidate as the data model wants it: not empty, ending with the separator.\<close>

definition well_formed_candidate :: "string \<Rightarrow> bool" where
  "well_formed_candidate q = (q \<noteq> [] \<and> endswith q ''/'')"

definition paths_well_formed :: "dialog \<Rightarrow> bool" where
  "paths_well_formed s =
     (list_all well_formed_candidate (destination_paths s) \<and>
      list_all well_formed_candidate (dest_combo_values s))"

text \<open>A remote call that returns the given text with exit status 0.\<close>

definition listing :: "string \<Rightarrow> subprocess_run" where
  "listing out = (\<lambda>argv. Inr (CompletedProcess 0 out))"

definition example_host :: host where
  "example_host =
     \<lparr>name = ''srv'', hostname = None, user = Some ''alice'', identity_file = None\<rparr>"

definition example_dialog :: dialog where
  "example_dialog =
     \<lparr>selected_host = Some example_host, destination_paths = [''~/''],
      remote_home = Some ''/home/alice'', dest_var = ''~/'',
      dest_combo_values = [''~/''], dest_combo_cursor = 2\<rparr>"

definition no_identity :: "string \<Rightarrow> bool" where
  "no_identity p = False"

text \<open>The remote listing call failed: it raised (timeout, no connection), exited
  non-zero, or printed nothing but whitespace.\<close>

definition listing_failed :: "py_exception + completed_process \<Rightarrow> bool" where
  "listing_failed r =
     (case r of
        Inl e \<Rightarrow> True
      | Inr result \<Rightarrow> returncode result \<noteq> 0 \<or> py_strip (stdout result) = [])"

text \<open>Remote calls that raise, and that return a given exit status and text.\<close>

definition raising :: "py_exception \<Rightarrow> subprocess_run" where
  "raising e = (\<lambda>argv. Inl e)"

definition exiting :: "int \<Rightarrow> string \<Rightarrow> subprocess_run" where
  "exiting rc out = (\<lambda>argv. Inr (CompletedProcess rc out))"



definition unresolved_dialog :: dialog where
  "unresolved_dialog = example_dialog\<lparr>remote_home := None\<rparr>"

text \<open>An import directory \<open>/m\<close> that already holds two songs.\<close>

definition example_fs :: filesystem where
  "example_fs =
     [(''/m/song.mp3'', ''first''), (''/m/song_1.mp3'', ''second''),
      (''/in/song.mp3'', ''third'')]"

section \<open>Lemmas on the listing loops\<close>

lemma well_formed_append_sep: "well_formed_candidate (p @ ''/'')"
  by (simp add: well_formed_candidate_def endswith_def)

lemma well_formed_cons_append_sep: "well_formed_candidate (c # p @ ''/'')"
  using well_formed_append_sep [of "c # p"] by simp

lemma filter_loop_well_formed:
  "list_all well_formed_candidate (filter_loop using_tilde home raws)"
  by (induction raws) (auto simp: Let_def well_formed_append_sep well_formed_cons_append_sep)

lemma remote_loop_well_formed:
  "list_all well_formed_candidate (remote_loop using_tilde home raws)"
  by (induction raws) (auto simp: Let_def well_formed_append_sep well_formed_cons_append_sep)

lemma replacement_loop_well_formed:
  "list_all well_formed_candidate (replacement_loop home ps)"
  by (induction ps) (auto simp: Let_def well_formed_append_sep well_formed_cons_append_sep)

lemma candidates_filter_cases:
  "candidates (fetch_and_filter_paths pe run s dir_path prefix) = [] \<or>
   (\<exists>raws. candidates (fetch_and_filter_paths pe run s dir_path prefix)
        = filter_loop (startswith (dest_var s) ''~/'') (remote_home s) raws)"
  by (auto simp: fetch_and_filter_paths_def Let_def split: option.splits sum.splits)

lemma candidates_remote_cases:
  "candidates (fetch_remote_paths pe run s remote_path) = [] \<or>
   (\<exists>raws. candidates (fetch_remote_paths pe run s remote_path)
        = remote_loop (startswith remote_path ''~/'') (remote_home s) raws)"
  by (auto simp: fetch_remote_paths_def Let_def split: option.splits sum.splits)

lemma candidates_filter_well_formed:
  "list_all well_formed_candidate (candidates (fetch_and_filter_paths pe run s dir_path prefix))"
  using candidates_filter_cases [of pe run s dir_path prefix]
  by (elim disjE exE) (simp_all add: filter_loop_well_formed)

lemma candidates_remote_well_formed:
  "list_all well_formed_candidate (candidates (fetch_remote_paths pe run s remote_path))"
  using candidates_remote_cases [of pe run s remote_path]
  by (elim disjE exE) (simp_all add: remote_loop_well_formed)

lemma apply_home_paths:
  assumes "truthy (remote_home s)" and "destination_paths s \<noteq> []"
  shows "destination_paths (apply_home_replacement_to_paths s)
           = replacement_loop (the (remote_home s)) (destination_paths s)"
    and "dest_combo_values (apply_home_replacement_to_paths s)
           = replacement_loop (the (remote_home s)) (destination_paths s)"
  using assms by (simp_all add: apply_home_replacement_to_paths_def Let_def)

lemma apply_home_guard:
  "\<not> truthy (remote_home s) \<or> destination_paths s = [] \<Longrightarrow>
   apply_home_replacement_to_paths s = s"
  by (simp add: apply_home_replacement_to_paths_def)

lemma deliver_cases:
  "deliver s r = s \<or>
   (destination_paths (deliver s r) = candidates r \<and>
    dest_combo_values (deliver s r) = candidates r)"
proof (cases r)
  case (Inl e)
  then show ?thesis by simp
next
  case (Inr scheduled)
  show ?thesis
  proof (cases scheduled)
    case None
    with Inr show ?thesis by simp
  next
    case (Some cb)
    with Inr show ?thesis
      by (cases cb)
        (simp_all add: update_and_show_dropdown_def update_destination_values_def Let_def)
  qed
qed

lemma deliver_preserves_well_formed:
  assumes "paths_well_formed s" and "list_all well_formed_candidate (candidates r)"
  shows "paths_well_formed (deliver s r)"
  using deliver_cases [of s r] assms by (auto simp: paths_well_formed_def)

lemma apply_home_preserves_well_formed:
  assumes "paths_well_formed s"
  shows "paths_well_formed (apply_home_replacement_to_paths s)"
proof (cases "truthy (remote_home s) \<and> destination_paths s \<noteq> []")
  case True
  then show ?thesis
    using apply_home_paths [of s] replacement_loop_well_formed
    by (simp add: paths_well_formed_def)
next
  case False
  then show ?thesis using assms apply_home_guard [of s] by auto
qed

lemma failed_filter_none:
  assumes "selected_host s = Some h"
    and "listing_failed (run (ssh_cmd_prefix pe h @ [filter_cmd dir_path prefix]))"
  shows "fetch_and_filter_paths pe run s dir_path prefix = Inr None"
  using assms
  by (auto simp: fetch_and_filter_paths_def listing_failed_def Let_def split: sum.splits)

lemma failed_remote_none:
  assumes "selected_host s = Some h"
    and "listing_failed (run (ssh_cmd_prefix pe h @ [remote_cmd remote_path]))"
  shows "fetch_remote_paths pe run s remote_path = Inr None"
  using assms
  by (auto simp: fetch_remote_paths_def listing_failed_def Let_def split: sum.splits)

lemma filter_returns: "\<exists>scheduled. fetch_and_filter_paths pe run s dir_path prefix = Inr scheduled"
  by (auto simp: fetch_and_filter_paths_def Let_def split: option.splits sum.splits)

lemma remote_returns: "\<exists>scheduled. fetch_remote_paths pe run s remote_path = Inr scheduled"
  by (auto simp: fetch_remote_paths_def Let_def split: option.splits sum.splits)






lemma deliver_nothing: "candidates r = [] \<Longrightarrow> deliver s r = s"
proof (cases r)
  case (Inl e)
  then show ?thesis by simp
next
  case (Inr scheduled)
  assume empty: "candidates r = []"
  show ?thesis
  proof (cases scheduled)
    case None
    with Inr show ?thesis by simp
  next
    case (Some cb)
    with Inr empty show ?thesis
      by (cases cb) (simp_all add: update_and_show_dropdown_def update_destination_values_def)
  qed
qed

lemma rstrip_slash_last: "rstrip_slash s \<noteq> [] \<Longrightarrow> last (rstrip_slash s) \<noteq> CHR ''/''"
  using hd_dropWhile [of "\<lambda>c. c = CHR ''/''" "rev s"]
  by (simp add: rstrip_slash_def last_rev)

lemma rstrip_slash_empty_iff: "rstrip_slash s = [] \<longleftrightarrow> (\<forall>c \<in> set s. c = CHR ''/'')"
  by (simp add: rstrip_slash_def dropWhile_eq_Nil_conv)

lemma trailing_seps_one:
  "p = [] \<or> last p \<noteq> CHR ''/'' \<Longrightarrow> trailing_seps (p @ ''/'') = 1"
  by (cases p rule: rev_cases) (auto simp: trailing_seps_def)

lemma rewritten_last:
  assumes "p \<noteq> []" and "last p \<noteq> CHR ''/''"
  shows "last (CHR ''~'' # drop n p) \<noteq> CHR ''/''"
proof (cases "n < length p")
  case True
  then show ?thesis using assms by (simp add: last_drop)
next
  case False
  then show ?thesis by simp
qed

lemma startswith_length: "startswith p H \<Longrightarrow> length H \<le> length p"
  unfolding startswith_def by (metis length_take min.cobounded1)

lemma startswith_nonempty: "startswith p H \<Longrightarrow> H \<noteq> [] \<Longrightarrow> p \<noteq> []"
  by (auto simp: startswith_def)

lemma remote_loop_eq_filter_loop: "remote_loop ut home raws = filter_loop ut home raws"
  by (induction raws) (simp_all add: Let_def)

text \<open>One step of the loop, with the line's candidate written out.\<close>

lemma filter_loop_step:
  "filter_loop ut home (raw # rest) =
     (if rstrip_slash (py_strip raw) = [] then []
      else [(if ut \<and> truthy home \<and> startswith (rstrip_slash (py_strip raw)) (the home)
             then CHR ''~'' # drop (length (the home)) (rstrip_slash (py_strip raw))
             else rstrip_slash (py_strip raw)) @ ''/''])
     @ filter_loop ut home rest"
  by (simp add: Let_def)

lemma line_one_separator:
  assumes "rstrip_slash (py_strip raw) \<noteq> []"
  shows "\<exists>q. filter_loop ut home (raw # rest) = q # filter_loop ut home rest \<and>
             trailing_seps q = 1"
proof -
  let ?p = "rstrip_slash (py_strip raw)"
  let ?p' = "if ut \<and> truthy home \<and> startswith ?p (the home)
             then CHR ''~'' # drop (length (the home)) ?p else ?p"
  have l: "last ?p \<noteq> CHR ''/''" using assms by (rule rstrip_slash_last)
  have "last ?p' \<noteq> CHR ''/''"
    using rewritten_last [OF assms l] l by (simp del: last.simps)
  then have "trailing_seps (?p' @ ''/'') = 1"
    using trailing_seps_one by blast
  moreover have "filter_loop ut home (raw # rest) = (?p' @ ''/'') # filter_loop ut home rest"
    using assms by (simp add: filter_loop_step del: filter_loop.simps)
  ultimately show ?thesis by blast
qed

lemma candidates_filter_success:
  assumes "selected_host s = Some h"
    and "run (ssh_cmd_prefix pe h @ [filter_cmd dir_path prefix]) = Inr (CompletedProcess 0 out)"
    and "py_strip out \<noteq> []"
  shows "candidates (fetch_and_filter_paths pe run s dir_path prefix)
           = filter_loop (startswith (dest_var s) ''~/'') (remote_home s) (split_nl (py_strip out))"
  using assms by (simp add: fetch_and_filter_paths_def Let_def)

lemma candidates_remote_success:
  assumes "selected_host s = Some h"
    and "run (ssh_cmd_prefix pe h @ [remote_cmd remote_path]) = Inr (CompletedProcess 0 out)"
    and "py_strip out \<noteq> []"
  shows "candidates (fetch_remote_paths pe run s remote_path)
           = remote_loop (startswith remote_path ''~/'') (remote_home s) (split_nl (py_strip out))"
  using assms by (simp add: fetch_remote_paths_def Let_def)

lemma rstrip_keeps_prefix:
  assumes "H \<noteq> []" and "\<not> P (last H)"
  shows "\<exists>t'. rev (dropWhile P (rev (H @ t))) = H @ t'"
proof -
  from assms obtain ys y where H: "H = ys @ [y]" and y: "\<not> P y"
    by (cases H rule: rev_cases) auto
  show ?thesis
    using y by (auto simp: H dropWhile_append)
qed

lemma startswith_append_iff: "startswith p H \<longleftrightarrow> (\<exists>t. p = H @ t)"
  unfolding startswith_def by (metis append_eq_conv_conj append_take_drop_id)

lemma stripped_keeps_home_prefix:
  assumes "H \<noteq> []" and "\<not> isspace (hd H)" and "\<not> isspace (last H)"
    and "last H \<noteq> CHR ''/''" and "startswith raw H"
  shows "startswith (rstrip_slash (py_strip raw)) H"
proof -
  from assms(5) obtain t where raw: "raw = H @ t"
    using startswith_append_iff by blast
  have "dropWhile isspace raw = raw"
    using assms(1,2) by (cases H) (simp_all add: raw)
  then have "py_strip raw = rev (dropWhile isspace (rev (H @ t)))"
    by (simp add: py_strip_def raw)
  with rstrip_keeps_prefix [of H isspace t] assms(1,3)
  obtain t' where "py_strip raw = H @ t'" by auto
  moreover from rstrip_keeps_prefix [of H "\<lambda>c. c = CHR ''/''" t'] assms(1,4)
  obtain t'' where "rstrip_slash (H @ t') = H @ t''"
    by (auto simp: rstrip_slash_def)
  ultimately show ?thesis
    using startswith_append_iff by auto
qed

lemma stripped_length_le: "length (rstrip_slash (py_strip raw)) \<le> length raw"
proof -
  have "length (rstrip_slash (py_strip raw)) \<le> length (py_strip raw)"
    using length_dropWhile_le [of "\<lambda>c. c = CHR ''/''" "rev (py_strip raw)"]
    by (simp add: rstrip_slash_def)
  also have "\<dots> \<le> length (dropWhile isspace raw)"
    using length_dropWhile_le [of isspace "rev (dropWhile isspace raw)"]
    by (simp add: py_strip_def)
  also have "\<dots> \<le> length raw"
    by (rule length_dropWhile_le)
  finally show ?thesis .
qed

lemma line_rewritten:
  assumes "H \<noteq> []" and "startswith (rstrip_slash (py_strip raw)) H"
  shows "filter_loop True (Some H) (raw # rest)
           = (CHR ''~'' # drop (length H) (rstrip_slash (py_strip raw)) @ ''/'')
             # filter_loop True (Some H) rest"
  using assms startswith_nonempty [OF assms(2,1)]
  by (simp add: filter_loop_step del: filter_loop.simps)

lemma filter_loop_plain:
  "\<not> (ut \<and> truthy home) \<Longrightarrow>
   filter_loop ut home raws
     = map (\<lambda>p. p @ ''/'')
         (filter (\<lambda>p. p \<noteq> []) (map (\<lambda>raw. rstrip_slash (py_strip raw)) raws))"
  by (induction raws) (auto simp: Let_def)

lemma filter_loop_general:
  "filter_loop ut home raws
     = map (\<lambda>p. (if ut \<and> truthy home \<and> startswith p (the home)
                  then CHR ''~'' # drop (length (the home)) p else p) @ ''/'')
         (filter (\<lambda>p. p \<noteq> []) (map (\<lambda>raw. rstrip_slash (py_strip raw)) raws))"
  by (induction raws) (auto simp: Let_def)

















lemma filter_loop_unset:
  "\<not> truthy home \<Longrightarrow> filter_loop ut home raws = filter_loop False None raws"
  by (simp add: filter_loop_plain del: filter_loop.simps)

section \<open>Lemmas on the move into the import directory\<close>

lemma unique_destination_free:
  "\<not> os_path_exists fs (unique_destination fs dir base ext destination counter)"
proof (induction fs dir base ext destination counter rule: unique_destination.induct)
  case (1 fs dir base ext destination counter)
  then show ?case
    by (subst unique_destination.simps) simp
qed

lemma unique_destination_least:
  assumes "os_path_exists fs destination"
  shows "\<exists>N. counter \<le> N \<and>
           unique_destination fs dir base ext destination counter = numbered_name dir base ext N \<and>
           (\<forall>k. counter \<le> k \<and> k < N \<longrightarrow> os_path_exists fs (numbered_name dir base ext k))"
  using assms
proof (induction fs dir base ext destination counter rule: unique_destination.induct)
  case (1 fs dir base ext destination counter)
  let ?next = "path_join dir (base @ ''_'' @ str_of_nat counter @ ext)"
  have step: "unique_destination fs dir base ext destination counter
                = unique_destination fs dir base ext ?next (counter + 1)"
    using "1.prems" by (subst unique_destination.simps) simp
  show ?case
  proof (cases "os_path_exists fs ?next")
    case True
    from "1.IH" [OF "1.prems" True] obtain N where
      N: "counter + 1 \<le> N"
         "unique_destination fs dir base ext ?next (counter + 1) = numbered_name dir base ext N"
         "\<forall>k. counter + 1 \<le> k \<and> k < N \<longrightarrow> os_path_exists fs (numbered_name dir base ext k)"
      by blast
    have "\<forall>k. counter \<le> k \<and> k < N \<longrightarrow> os_path_exists fs (numbered_name dir base ext k)"
    proof (intro allI impI)
      fix k assume k: "counter \<le> k \<and> k < N"
      show "os_path_exists fs (numbered_name dir base ext k)"
      proof (cases "k = counter")
        case True
        with \<open>os_path_exists fs ?next\<close> show ?thesis by (simp add: numbered_name_def)
      next
        case False
        with k N(3) show ?thesis by simp
      qed
    qed
    with N step show ?thesis by (intro exI [of _ N]) simp
  next
    case False
    then have "unique_destination fs dir base ext ?next (counter + 1) = ?next"
      by (subst unique_destination.simps) simp
    with step show ?thesis
      by (intro exI [of _ counter]) (auto simp: numbered_name_def)
  qed
qed

lemma choose_destination_free:
  "\<not> os_path_exists fs (choose_destination fs import_dir filename)"
  by (simp add: choose_destination_def Let_def unique_destination_free split: prod.splits)

lemma map_of_filter_fst:
  "map_of (filter (\<lambda>e. P (fst e)) fs) p = (if P p then map_of fs p else None)"
  by (induction fs) auto

lemma shutil_move_keeps:
  assumes "shutil_move fs src dst = Inr fs'" and "p \<noteq> src" and "p \<noteq> dst"
  shows "map_of fs' p = map_of fs p"
  using assms map_of_filter_fst [of "\<lambda>k. k \<noteq> src \<and> k \<noteq> dst" fs p]
  by (auto simp: shutil_move_def split: option.splits)

lemma shutil_move_target:
  assumes "shutil_move fs src dst = Inr fs'"
  shows "map_of fs' dst = map_of fs src"
  using assms by (auto simp: shutil_move_def split: option.splits)

lemma move_keeps_existing:
  assumes "move_to_import_dir fs import_dir file_path filename = (fs', moved)"
    and "p \<noteq> file_path" and "map_of fs p = Some content"
  shows "map_of fs' p = Some content"
proof (cases "shutil_move fs file_path (choose_destination fs import_dir filename)")
  case (Inl e)
  with assms show ?thesis by (simp add: move_to_import_dir_def Let_def)
next
  case (Inr fs'')
  with assms(1) have eq: "fs'' = fs'" by (simp add: move_to_import_dir_def Let_def)
  have "p \<noteq> choose_destination fs import_dir filename"
    using choose_destination_free [of fs import_dir filename] assms(3)
    by (auto simp: os_path_exists_def)
  with Inr eq assms show ?thesis using shutil_move_keeps by metis
qed

lemma choose_destination_fresh:
  "\<not> os_path_exists fs (path_join import_dir filename) \<Longrightarrow>
   choose_destination fs import_dir filename = path_join import_dir filename"
  by (simp add: choose_destination_def)

lemma choose_destination_numbered:
  assumes "os_path_exists fs (path_join import_dir filename)"
    and "splitext filename = (base, ext)"
  shows "\<exists>N. 1 \<le> N \<and>
           choose_destination fs import_dir filename
             = path_join import_dir (base @ ''_'' @ str_of_nat N @ ext) \<and>
           (\<forall>k. 1 \<le> k \<and> k < N \<longrightarrow>
                os_path_exists fs (path_join import_dir (base @ ''_'' @ str_of_nat k @ ext)))"
proof -
  have "choose_destination fs import_dir filename
          = unique_destination fs import_dir base ext (path_join import_dir filename) 1"
    using assms by (simp add: choose_destination_def)
  with unique_destination_least [OF assms(1), of 1 import_dir base ext]
  show ?thesis by (simp add: numbered_name_def)
qed

lemma move_target_content:
  assumes "move_to_import_dir fs import_dir file_path filename = (fs', True)"
  shows "map_of fs' (choose_destination fs import_dir filename) = map_of fs file_path"
proof (cases "shutil_move fs file_path (choose_destination fs import_dir filename)")
  case (Inl e)
  with assms show ?thesis by (simp add: move_to_import_dir_def Let_def)
next
  case (Inr fs'')
  with assms have "fs'' = fs'" by (simp add: move_to_import_dir_def Let_def)
  with Inr show ?thesis using shutil_move_target by metis
qed

section \<open>The claims\<close>

text \<open>
  C1. Every candidate path the completer produces is a non-empty string that ends with
  the separator \<open>/\<close>, whatever the remote listing printed and whatever the cached home
  directory is: this holds for the list \<open>fetch_and_filter_paths\<close> hands over, for the
  list \<open>fetch_remote_paths\<close> hands over, and for the list
  \<open>apply_home_replacement_to_paths\<close> stores and shows when it rewrites. Hence the
  stored list and the option list of the combobox stay well formed under each of the
  three operations.
\<close>

theorem candidates_nonempty_and_end_with_separator:
  "list_all well_formed_candidate
     (candidates (fetch_and_filter_paths pe run s dir_path prefix)) \<and>
   list_all well_formed_candidate
     (candidates (fetch_remote_paths pe run s remote_path)) \<and>
   (truthy (remote_home s) \<and> destination_paths s \<noteq> [] \<longrightarrow>
      list_all well_formed_candidate
        (destination_paths (apply_home_replacement_to_paths s)) \<and>
      list_all well_formed_candidate
        (dest_combo_values (apply_home_replacement_to_paths s))) \<and>
   (paths_well_formed s \<longrightarrow>
      paths_well_formed (deliver s (fetch_and_filter_paths pe run s dir_path prefix)) \<and>
      paths_well_formed (deliver s (fetch_remote_paths pe run s remote_path)) \<and>
      paths_well_formed (apply_home_replacement_to_paths s))"
proof -
  have a: "list_all well_formed_candidate
             (candidates (fetch_and_filter_paths pe run s dir_path prefix))"
    by (rule candidates_filter_well_formed)
  have b: "list_all well_formed_candidate
             (candidates (fetch_remote_paths pe run s remote_path))"
    by (rule candidates_remote_well_formed)
  have c: "truthy (remote_home s) \<and> destination_paths s \<noteq> [] \<longrightarrow>
      list_all well_formed_candidate
        (destination_paths (apply_home_replacement_to_paths s)) \<and>
      list_all well_formed_candidate
        (dest_combo_values (apply_home_replacement_to_paths s))"
    using apply_home_paths [of s] replacement_loop_well_formed by simp
  have d: "paths_well_formed s \<longrightarrow>
      paths_well_formed (deliver s (fetch_and_filter_paths pe run s dir_path prefix)) \<and>
      paths_well_formed (deliver s (fetch_remote_paths pe run s remote_path)) \<and>
      paths_well_formed (apply_home_replacement_to_paths s)"
    using a b deliver_preserves_well_formed apply_home_preserves_well_formed by blast
  from a b c d show ?thesis by blast
qed

theorem candidates_nonempty_and_end_with_separator_witness:
  "candidates (fetch_and_filter_paths no_identity
       (listing ''/home/alice/docs/\<newline>/home/alice/pics/\<newline>'') example_dialog ''~/'' ''d'')
     = [''~/docs/'', ''~/pics/''] \<and>
   well_formed_candidate ''~/docs/'' \<and> well_formed_candidate ''~/pics/'' \<and>
   truthy (remote_home example_dialog) \<and> destination_paths example_dialog \<noteq> [] \<and>
   list_all well_formed_candidate
     (dest_combo_values (apply_home_replacement_to_paths example_dialog)) \<and>
   paths_well_formed example_dialog \<and>
   paths_well_formed (deliver example_dialog (fetch_and_filter_paths no_identity
       (listing ''/home/alice/docs/\<newline>/home/alice/pics/\<newline>'') example_dialog ''~/'' ''d''))"
proof -
  have e: "candidates (fetch_and_filter_paths no_identity
       (listing ''/home/alice/docs/\<newline>/home/alice/pics/\<newline>'') example_dialog ''~/'' ''d'')
     = [''~/docs/'', ''~/pics/'']"
    by code_simp
  have g: "truthy (remote_home example_dialog) \<and> destination_paths example_dialog \<noteq> []"
    by code_simp
  have w: "paths_well_formed example_dialog"
    by code_simp
  show ?thesis
    using e g w
      candidates_nonempty_and_end_with_separator [of no_identity
        "listing ''/home/alice/docs/\<newline>/home/alice/pics/\<newline>''" example_dialog "''~/''" "''d''" "''~/''"]
    by simp
qed

text \<open>
  C2 (amended). A raw listing line, whatever number N of separators it ends with (so
  also for N \<ge> 1), yields a candidate with exactly one trailing separator, provided
  the line, once trimmed of surrounding whitespace, holds a character other than the
  separator. A line made of separators only yields no candidate: the loop drops it.
  The raw line \<open>/tmp/x//\<close> normalizes to \<open>/tmp/x/\<close>.
\<close>

theorem normalization_leaves_one_trailing_separator:
  "((\<exists>c \<in> set (py_strip raw). c \<noteq> CHR ''/'') \<longrightarrow>
      (\<exists>q. filter_loop using_tilde home (raw # rest) = q # filter_loop using_tilde home rest \<and>
           remote_loop using_tilde home (raw # rest) = q # remote_loop using_tilde home rest \<and>
           trailing_seps q = 1)) \<and>
   ((\<forall>c \<in> set (py_strip raw). c = CHR ''/'') \<longrightarrow>
      filter_loop using_tilde home (raw # rest) = filter_loop using_tilde home rest \<and>
      remote_loop using_tilde home (raw # rest) = remote_loop using_tilde home rest) \<and>
   candidates (fetch_and_filter_paths no_identity (listing ''/tmp/x//'') example_dialog
      ''/tmp/'' ''x'') = [''/tmp/x/''] \<and>
   candidates (fetch_remote_paths no_identity (listing ''/tmp/x//'') example_dialog ''/tmp/'')
     = [''/tmp/x/'']"
proof -
  have a: "(\<exists>c \<in> set (py_strip raw). c \<noteq> CHR ''/'') \<longrightarrow>
      (\<exists>q. filter_loop using_tilde home (raw # rest) = q # filter_loop using_tilde home rest \<and>
           remote_loop using_tilde home (raw # rest) = q # remote_loop using_tilde home rest \<and>
           trailing_seps q = 1)"
  proof
    assume "\<exists>c \<in> set (py_strip raw). c \<noteq> CHR ''/''"
    then have "rstrip_slash (py_strip raw) \<noteq> []"
      using rstrip_slash_empty_iff by blast
    from line_one_separator [OF this, of using_tilde home rest]
    show "\<exists>q. filter_loop using_tilde home (raw # rest) = q # filter_loop using_tilde home rest \<and>
           remote_loop using_tilde home (raw # rest) = q # remote_loop using_tilde home rest \<and>
           trailing_seps q = 1"
      by (simp only: remote_loop_eq_filter_loop) blast
  qed
  have b: "(\<forall>c \<in> set (py_strip raw). c = CHR ''/'') \<longrightarrow>
      filter_loop using_tilde home (raw # rest) = filter_loop using_tilde home rest \<and>
      remote_loop using_tilde home (raw # rest) = remote_loop using_tilde home rest"
  proof
    assume "\<forall>c \<in> set (py_strip raw). c = CHR ''/''"
    then have "rstrip_slash (py_strip raw) = []"
      using rstrip_slash_empty_iff by blast
    then show "filter_loop using_tilde home (raw # rest) = filter_loop using_tilde home rest \<and>
      remote_loop using_tilde home (raw # rest) = remote_loop using_tilde home rest"
      by (simp add: remote_loop_eq_filter_loop filter_loop_step del: filter_loop.simps)
  qed
  have c: "candidates (fetch_and_filter_paths no_identity (listing ''/tmp/x//'') example_dialog
      ''/tmp/'' ''x'') = [''/tmp/x/'']"
    by code_simp
  have d: "candidates (fetch_remote_paths no_identity (listing ''/tmp/x//'') example_dialog
      ''/tmp/'') = [''/tmp/x/'']"
    by code_simp
  from a b c d show ?thesis by blast
qed

theorem normalization_leaves_one_trailing_separator_witness:
  "py_strip ''/tmp/x//'' = ''/tmp/x//'' \<and>
   filter_loop False None [''/tmp/x//''] = [''/tmp/x/''] \<and>
   remote_loop False None [''/tmp/x//''] = [''/tmp/x/''] \<and>
   trailing_seps ''/tmp/x/'' = 1 \<and>
   py_strip ''//'' = ''//'' \<and>
   filter_loop False None [''//'', ''/tmp/x//''] = filter_loop False None [''/tmp/x//'']"
proof -
  have s1: "py_strip ''/tmp/x//'' = ''/tmp/x//''" by code_simp
  have s2: "py_strip ''//'' = ''//''" by code_simp
  have e1: "filter_loop False None [''/tmp/x//''] = [''/tmp/x/'']" by code_simp
  have e2: "remote_loop False None [''/tmp/x//''] = [''/tmp/x/'']" by code_simp
  have t: "trailing_seps ''/tmp/x/'' = 1" by code_simp
  show ?thesis
    using s1 s2 e1 e2 t
      normalization_leaves_one_trailing_separator [of "''/tmp/x//''" False None "[]"]
      normalization_leaves_one_trailing_separator [of "''//''" False None "[''/tmp/x//'']"]
    by simp
qed

text \<open>
  C2 as stated fails on the line \<open>/\<close>: it ends with one separator, and the
  completer produces no path for it.
\<close>

theorem all_separator_line_counterexample:
  "endswith ''/'' ''/'' \<and> trailing_seps ''/'' = 1 \<and>
   filter_loop False None [''/''] = [] \<and>
   remote_loop False None [''/''] = [] \<and>
   candidates (fetch_and_filter_paths no_identity (listing ''/'') example_dialog ''/'' []) = [] \<and>
   candidates (fetch_remote_paths no_identity (listing ''/'') example_dialog ''/'') = []"
  by code_simp

text \<open>
  C3 (amended). Let the cached home directory be a non-empty \<open>H\<close> and the query
  context home-relative. If a raw candidate, once trimmed of surrounding whitespace and
  of its trailing separators, literally starts with \<open>H\<close>, then the rewritten
  candidate starts with \<open>~\<close> and has length \<open>len(c) - len(H) + 1\<close>, where \<open>c\<close> is
  the candidate as it would be listed without rewriting (the trimmed line plus one
  separator). This length is \<open>len(raw) - len(H) + 1\<close> exactly when the trimming
  removes one character of the raw line and no more; so it is when the raw line has no
  surrounding whitespace and exactly one trailing separator. The trimmed candidate starts with
  \<open>H\<close> whenever the raw line does and \<open>H\<close> neither begins nor ends with whitespace
  and does not end with a separator. The context is home-relative when the text of the
  destination field (\<open>fetch_and_filter_paths\<close>) or the listed path
  (\<open>fetch_remote_paths\<close>) begins with \<open>~/\<close>. The listing of
  \<open>/home/alice/docs/\<close> and \<open>/home/alice/pics/\<close> with \<open>H = /home/alice\<close> yields
  \<open>~/docs/\<close> and \<open>~/pics/\<close>.
\<close>

theorem home_prefix_rewritten_to_tilde:
  "(H \<noteq> [] \<and> startswith (rstrip_slash (py_strip raw)) H \<longrightarrow>
      (\<exists>q. filter_loop True (Some H) (raw # rest) = q # filter_loop True (Some H) rest \<and>
           remote_loop True (Some H) (raw # rest) = q # remote_loop True (Some H) rest \<and>
           startswith q ''~'' \<and>
           length q = length (rstrip_slash (py_strip raw) @ ''/'') - length H + 1 \<and>
           (raw = rstrip_slash (py_strip raw) @ ''/'' \<longrightarrow>
              length q = length raw - length H + 1) \<and>
           (length q = length raw - length H + 1 \<longleftrightarrow>
              length raw = length (rstrip_slash (py_strip raw)) + 1))) \<and>
   (H \<noteq> [] \<and> \<not> isspace (hd H) \<and> \<not> isspace (last H) \<and> last H \<noteq> CHR ''/'' \<and>
    startswith raw H \<longrightarrow> startswith (rstrip_slash (py_strip raw)) H) \<and>
   (selected_host s = Some h \<and> py_strip out \<noteq> [] \<and>
    run (ssh_cmd_prefix pe h @ [filter_cmd dir_path prefix]) = Inr (CompletedProcess 0 out) \<longrightarrow>
      candidates (fetch_and_filter_paths pe run s dir_path prefix)
        = filter_loop (startswith (dest_var s) ''~/'') (remote_home s)
            (split_nl (py_strip out))) \<and>
   (selected_host s = Some h \<and> py_strip out \<noteq> [] \<and>
    run (ssh_cmd_prefix pe h @ [remote_cmd remote_path]) = Inr (CompletedProcess 0 out) \<longrightarrow>
      candidates (fetch_remote_paths pe run s remote_path)
        = remote_loop (startswith remote_path ''~/'') (remote_home s)
            (split_nl (py_strip out))) \<and>
   remote_home example_dialog = Some ''/home/alice'' \<and> dest_var example_dialog = ''~/'' \<and>
   candidates (fetch_and_filter_paths no_identity
       (listing ''/home/alice/docs/\<newline>/home/alice/pics/'') example_dialog ''~/'' [])
     = [''~/docs/'', ''~/pics/''] \<and>
   candidates (fetch_remote_paths no_identity
       (listing ''/home/alice/docs/\<newline>/home/alice/pics/'') example_dialog ''~/'')
     = [''~/docs/'', ''~/pics/'']"
proof -
  have a: "H \<noteq> [] \<and> startswith (rstrip_slash (py_strip raw)) H \<longrightarrow>
      (\<exists>q. filter_loop True (Some H) (raw # rest) = q # filter_loop True (Some H) rest \<and>
           remote_loop True (Some H) (raw # rest) = q # remote_loop True (Some H) rest \<and>
           startswith q ''~'' \<and>
           length q = length (rstrip_slash (py_strip raw) @ ''/'') - length H + 1 \<and>
           (raw = rstrip_slash (py_strip raw) @ ''/'' \<longrightarrow>
              length q = length raw - length H + 1) \<and>
           (length q = length raw - length H + 1 \<longleftrightarrow>
              length raw = length (rstrip_slash (py_strip raw)) + 1))"
  proof
    assume hyp: "H \<noteq> [] \<and> startswith (rstrip_slash (py_strip raw)) H"
    let ?p = "rstrip_slash (py_strip raw)"
    let ?q = "CHR ''~'' # drop (length H) ?p @ ''/''"
    have step: "filter_loop True (Some H) (raw # rest) = ?q # filter_loop True (Some H) rest"
      using hyp line_rewritten by blast
    have len: "length H \<le> length ?p"
      using hyp startswith_length by blast
    have l1: "length ?q = length (?p @ ''/'') - length H + 1"
      using len by simp
    have l2: "raw = ?p @ ''/'' \<longrightarrow> length ?q = length raw - length H + 1"
    proof
      assume r: "raw = ?p @ ''/''"
      have "length raw = length (?p @ ''/'')"
        using arg_cong [OF r, of length] .
      then show "length ?q = length raw - length H + 1"
        using l1 by linarith
    qed
    have le: "length ?p \<le> length raw"
      by (rule stripped_length_le)
    have lq: "length ?q = length ?p - length H + 2"
      by simp
    have l3: "length ?q = length raw - length H + 1 \<longleftrightarrow> length raw = length ?p + 1"
      using lq len le by arith
    have t: "startswith ?q ''~''"
      by (simp add: startswith_def)
    have step': "remote_loop True (Some H) (raw # rest) = ?q # remote_loop True (Some H) rest"
      using step by (simp only: remote_loop_eq_filter_loop)
    show "\<exists>q. filter_loop True (Some H) (raw # rest) = q # filter_loop True (Some H) rest \<and>
           remote_loop True (Some H) (raw # rest) = q # remote_loop True (Some H) rest \<and>
           startswith q ''~'' \<and>
           length q = length (rstrip_slash (py_strip raw) @ ''/'') - length H + 1 \<and>
           (raw = rstrip_slash (py_strip raw) @ ''/'' \<longrightarrow>
              length q = length raw - length H + 1) \<and>
           (length q = length raw - length H + 1 \<longleftrightarrow>
              length raw = length (rstrip_slash (py_strip raw)) + 1)"
      using step step' t l1 l2 l3 by (intro exI [of _ ?q] conjI)
  qed
  have b: "H \<noteq> [] \<and> \<not> isspace (hd H) \<and> \<not> isspace (last H) \<and> last H \<noteq> CHR ''/'' \<and>
    startswith raw H \<longrightarrow> startswith (rstrip_slash (py_strip raw)) H"
    using stripped_keeps_home_prefix by blast
  have c: "selected_host s = Some h \<and> py_strip out \<noteq> [] \<and>
    run (ssh_cmd_prefix pe h @ [filter_cmd dir_path prefix]) = Inr (CompletedProcess 0 out) \<longrightarrow>
      candidates (fetch_and_filter_paths pe run s dir_path prefix)
        = filter_loop (startswith (dest_var s) ''~/'') (remote_home s)
            (split_nl (py_strip out))"
    using candidates_filter_success by blast
  have d: "selected_host s = Some h \<and> py_strip out \<noteq> [] \<and>
    run (ssh_cmd_prefix pe h @ [remote_cmd remote_path]) = Inr (CompletedProcess 0 out) \<longrightarrow>
      candidates (fetch_remote_paths pe run s remote_path)
        = remote_loop (startswith remote_path ''~/'') (remote_home s)
            (split_nl (py_strip out))"
    using candidates_remote_success by blast
  have e1: "remote_home example_dialog = Some ''/home/alice''"
    by (simp add: example_dialog_def)
  have e2: "dest_var example_dialog = ''~/''"
    by (simp add: example_dialog_def)
  have f: "candidates (fetch_and_filter_paths no_identity
       (listing ''/home/alice/docs/\<newline>/home/alice/pics/'') example_dialog ''~/'' [])
     = [''~/docs/'', ''~/pics/'']"
    by code_simp
  have g: "candidates (fetch_remote_paths no_identity
       (listing ''/home/alice/docs/\<newline>/home/alice/pics/'') example_dialog ''~/'')
     = [''~/docs/'', ''~/pics/'']"
    by code_simp
  from a b c d e1 e2 f g show ?thesis by (intro conjI)
qed

theorem home_prefix_rewritten_to_tilde_witness:
  "''/home/alice'' \<noteq> [] \<and>
   startswith (rstrip_slash (py_strip ''/home/alice/docs/'')) ''/home/alice'' \<and>
   filter_loop True (Some ''/home/alice'') [''/home/alice/docs/''] = [''~/docs/''] \<and>
   remote_loop True (Some ''/home/alice'') [''/home/alice/docs/''] = [''~/docs/''] \<and>
   startswith ''~/docs/'' ''~'' \<and>
   ''/home/alice/docs/'' = rstrip_slash (py_strip ''/home/alice/docs/'') @ ''/'' \<and>
   length ''~/docs/'' = length ''/home/alice/docs/'' - length ''/home/alice'' + 1 \<and>
   length ''/home/alice/docs/'' = length (rstrip_slash (py_strip ''/home/alice/docs/'')) + 1 \<and>
   startswith ''/home/alice/docs/'' ''/home/alice''"
proof -
  have h: "startswith (rstrip_slash (py_strip ''/home/alice/docs/'')) ''/home/alice''"
    by code_simp
  have e: "filter_loop True (Some ''/home/alice'') [''/home/alice/docs/''] = [''~/docs/'']"
    by code_simp
  have r: "''/home/alice/docs/'' = rstrip_slash (py_strip ''/home/alice/docs/'') @ ''/''"
    by code_simp
  have w: "startswith ''/home/alice/docs/'' ''/home/alice''"
    by code_simp
  have t: "startswith ''~/docs/'' ''~''"
    by code_simp
  have e': "remote_loop True (Some ''/home/alice'') [''/home/alice/docs/''] = [''~/docs/'']"
    by code_simp
  have n: "length ''~/docs/'' = length ''/home/alice/docs/'' - length ''/home/alice'' + 1"
    by simp
  show ?thesis
    using h e e' r w t n
      home_prefix_rewritten_to_tilde [where H = "''/home/alice''"
        and raw = "''/home/alice/docs/''" and rest = "[]" and s = example_dialog
        and h = example_host and pe = no_identity and out = "''/home/alice/docs/''"
        and run = "listing ''/home/alice/docs/''" and dir_path = "''~/''" and prefix = "[]"
        and remote_path = "''~/''"]
    by (intro conjI) simp_all
qed

text \<open>
  C3 as stated fails on the line \<open>/home/alice/docs//\<close>, which is what
  \<open>ls -1dp\<close> prints: it starts with \<open>H = /home/alice\<close>, and the candidate
  \<open>~/docs/\<close> has length 7, not 18 - 11 + 1. It fails too when \<open>H\<close> ends with a
  separator: with \<open>H = /home/alice/\<close> the line \<open>/home/alice/\<close> starts with
  \<open>H\<close> and is not rewritten.
\<close>

theorem double_separator_length_counterexample:
  "startswith ''/home/alice/docs//'' ''/home/alice'' \<and>
   candidates (fetch_remote_paths no_identity (listing ''/home/alice/docs//'')
      example_dialog ''~/'') = [''~/docs/''] \<and>
   length ''~/docs/'' \<noteq> length ''/home/alice/docs//'' - length ''/home/alice'' + 1 \<and>
   startswith ''/home/alice/'' ''/home/alice/'' \<and>
   filter_loop True (Some ''/home/alice/'') [''/home/alice/''] = [''/home/alice/''] \<and>
   remote_loop True (Some ''/home/alice/'') [''/home/alice/''] = [''/home/alice/''] \<and>
   \<not> startswith ''/home/alice/'' ''~''"
  by code_simp




text \<open>
  C5 (amended). With no cached home directory (\<open>remote_home\<close> is \<open>None\<close> or
  empty) no rewriting occurs, whatever the candidate holds and whatever the query is:
  each raw line yields the line trimmed of surrounding whitespace with its trailing
  separators replaced by exactly one, and yields nothing when nothing is left after the
  trimming. For a line with no surrounding whitespace that is not made of separators
  only, this is the raw line with its trailing separators normalized to exactly one.
  \<open>apply_home_replacement_to_paths\<close> leaves the whole dialog, so the stored list,
  unchanged.
\<close>

theorem no_cached_home_no_rewriting:
  "(\<not> truthy home \<longrightarrow>
      filter_loop using_tilde home (raw # rest)
        = (if rstrip_slash (py_strip raw) = [] then []
           else [rstrip_slash (py_strip raw) @ ''/'']) @ filter_loop using_tilde home rest \<and>
      remote_loop using_tilde home (raw # rest)
        = (if rstrip_slash (py_strip raw) = [] then []
           else [rstrip_slash (py_strip raw) @ ''/'']) @ remote_loop using_tilde home rest) \<and>
   (\<not> truthy home \<and> py_strip raw = raw \<and> rstrip_slash raw \<noteq> [] \<longrightarrow>
      filter_loop using_tilde home (raw # rest)
        = (rstrip_slash raw @ ''/'') # filter_loop using_tilde home rest \<and>
      remote_loop using_tilde home (raw # rest)
        = (rstrip_slash raw @ ''/'') # remote_loop using_tilde home rest \<and>
      trailing_seps (rstrip_slash raw @ ''/'') = 1) \<and>
   (\<not> truthy home \<longrightarrow>
      filter_loop using_tilde home raws = filter_loop False None raws \<and>
      remote_loop using_tilde home raws = remote_loop False None raws) \<and>
   (\<not> truthy (remote_home s) \<longrightarrow> apply_home_replacement_to_paths s = s)"
proof -
  have a: "\<not> truthy home \<longrightarrow>
      filter_loop using_tilde home (raw # rest)
        = (if rstrip_slash (py_strip raw) = [] then []
           else [rstrip_slash (py_strip raw) @ ''/'']) @ filter_loop using_tilde home rest \<and>
      remote_loop using_tilde home (raw # rest)
        = (if rstrip_slash (py_strip raw) = [] then []
           else [rstrip_slash (py_strip raw) @ ''/'']) @ remote_loop using_tilde home rest"
    by (simp add: remote_loop_eq_filter_loop filter_loop_step
        del: filter_loop.simps remote_loop.simps)
  have b: "\<not> truthy home \<and> py_strip raw = raw \<and> rstrip_slash raw \<noteq> [] \<longrightarrow>
      filter_loop using_tilde home (raw # rest)
        = (rstrip_slash raw @ ''/'') # filter_loop using_tilde home rest \<and>
      remote_loop using_tilde home (raw # rest)
        = (rstrip_slash raw @ ''/'') # remote_loop using_tilde home rest \<and>
      trailing_seps (rstrip_slash raw @ ''/'') = 1"
  proof
    assume h: "\<not> truthy home \<and> py_strip raw = raw \<and> rstrip_slash raw \<noteq> []"
    then have "last (rstrip_slash raw) \<noteq> CHR ''/''"
      using rstrip_slash_last by blast
    then have t: "trailing_seps (rstrip_slash raw @ ''/'') = 1"
      using trailing_seps_one by blast
    have "filter_loop using_tilde home (raw # rest)
        = (rstrip_slash raw @ ''/'') # filter_loop using_tilde home rest"
      using h by (simp add: filter_loop_step del: filter_loop.simps)
    with t show "filter_loop using_tilde home (raw # rest)
        = (rstrip_slash raw @ ''/'') # filter_loop using_tilde home rest \<and>
      remote_loop using_tilde home (raw # rest)
        = (rstrip_slash raw @ ''/'') # remote_loop using_tilde home rest \<and>
      trailing_seps (rstrip_slash raw @ ''/'') = 1"
      by (simp only: remote_loop_eq_filter_loop)
  qed
  have c: "\<not> truthy home \<longrightarrow>
      filter_loop using_tilde home raws = filter_loop False None raws \<and>
      remote_loop using_tilde home raws = remote_loop False None raws"
    using filter_loop_unset [of home using_tilde raws]
    by (simp only: remote_loop_eq_filter_loop) blast
  have d: "\<not> truthy (remote_home s) \<longrightarrow> apply_home_replacement_to_paths s = s"
    using apply_home_guard by blast
  from a b c d show ?thesis by (intro conjI)
qed

theorem no_cached_home_no_rewriting_witness:
  "\<not> truthy None \<and>
   py_strip ''/home/alice/docs//'' = ''/home/alice/docs//'' \<and>
   rstrip_slash ''/home/alice/docs//'' \<noteq> [] \<and>
   filter_loop True None [''/home/alice/docs//''] = [''/home/alice/docs/''] \<and>
   remote_loop True None [''/home/alice/docs//''] = [''/home/alice/docs/''] \<and>
   trailing_seps ''/home/alice/docs/'' = 1 \<and>
   \<not> truthy (remote_home unresolved_dialog) \<and>
   apply_home_replacement_to_paths unresolved_dialog = unresolved_dialog"
proof -
  have s: "py_strip ''/home/alice/docs//'' = ''/home/alice/docs//''" by code_simp
  have n: "rstrip_slash ''/home/alice/docs//'' = ''/home/alice/docs''" by code_simp
  have u: "\<not> truthy (remote_home unresolved_dialog)" by code_simp
  have l1: "filter_loop True None [] = []" by simp
  have l2: "remote_loop True None [] = []" by simp
  show ?thesis
    using s n u l1 l2
      no_cached_home_no_rewriting [where home = None and using_tilde = True
        and raw = "''/home/alice/docs//''" and rest = "[]"
        and raws = "[''/home/alice/docs//'']" and s = unresolved_dialog]
    by (simp del: filter_loop.simps remote_loop.simps)
qed

text \<open>
  C5 as stated fails on a line with surrounding whitespace and on a line of separators:
  with no cached home directory, the line \<open>\<^verbatim>\<open> /srv/b/\<close>\<close> yields \<open>/srv/b/\<close>, which is
  not the raw line with its trailing separators normalized, and the line \<open>//\<close>
  yields no candidate, not \<open>/\<close>.
\<close>

theorem unset_home_trimming_counterexample:
  "remote_home unresolved_dialog = None \<and>
   candidates (fetch_and_filter_paths no_identity (listing ''/srv/a/\<newline> /srv/b/'')
      unresolved_dialog ''/srv/'' []) = [''/srv/a/'', ''/srv/b/''] \<and>
   rstrip_slash '' /srv/b/'' @ ''/'' = '' /srv/b/'' \<and>
   '' /srv/b/'' \<noteq> ''/srv/b/'' \<and>
   candidates (fetch_remote_paths no_identity (listing ''/srv/a//\<newline>//'')
      unresolved_dialog ''/srv/'') = [''/srv/a/''] \<and>
   rstrip_slash ''//'' @ ''/'' = ''/''"
  by code_simp

text \<open>
  C6. When the remote listing call fails (it raises on a timeout or a connection that
  cannot be made, it exits non-zero, or it prints nothing), \<open>fetch_and_filter_paths\<close>
  and \<open>fetch_remote_paths\<close> return normally and hand over no candidate; on no input
  at all does an exception leave either function.
\<close>

theorem listing_failure_yields_no_candidates:
  assumes "selected_host s = Some h"
  shows "(listing_failed (run (ssh_cmd_prefix pe h @ [filter_cmd dir_path prefix])) \<longrightarrow>
            fetch_and_filter_paths pe run s dir_path prefix = Inr None \<and>
            candidates (fetch_and_filter_paths pe run s dir_path prefix) = []) \<and>
         (listing_failed (run (ssh_cmd_prefix pe h @ [remote_cmd remote_path])) \<longrightarrow>
            fetch_remote_paths pe run s remote_path = Inr None \<and>
            candidates (fetch_remote_paths pe run s remote_path) = []) \<and>
         fetch_and_filter_paths pe run s dir_path prefix \<noteq> Inl e \<and>
         fetch_remote_paths pe run s remote_path \<noteq> Inl e"
proof -
  have a: "listing_failed (run (ssh_cmd_prefix pe h @ [filter_cmd dir_path prefix])) \<longrightarrow>
            fetch_and_filter_paths pe run s dir_path prefix = Inr None \<and>
            candidates (fetch_and_filter_paths pe run s dir_path prefix) = []"
    using failed_filter_none [OF assms] by simp
  have b: "listing_failed (run (ssh_cmd_prefix pe h @ [remote_cmd remote_path])) \<longrightarrow>
            fetch_remote_paths pe run s remote_path = Inr None \<and>
            candidates (fetch_remote_paths pe run s remote_path) = []"
    using failed_remote_none [OF assms] by simp
  have c: "fetch_and_filter_paths pe run s dir_path prefix \<noteq> Inl e"
    using filter_returns [of pe run s dir_path prefix] by auto
  have d: "fetch_remote_paths pe run s remote_path \<noteq> Inl e"
    using remote_returns [of pe run s remote_path] by auto
  from a b c d show ?thesis by blast
qed

theorem listing_failure_yields_no_candidates_witness:
  "selected_host example_dialog = Some example_host \<and>
   listing_failed (raising TimeoutExpired
      (ssh_cmd_prefix no_identity example_host @ [filter_cmd ''~/'' ''d''])) \<and>
   listing_failed (raising TimeoutExpired
      (ssh_cmd_prefix no_identity example_host @ [remote_cmd ''~/''])) \<and>
   fetch_and_filter_paths no_identity (raising TimeoutExpired) example_dialog ''~/'' ''d''
     = Inr None \<and>
   fetch_remote_paths no_identity (raising TimeoutExpired) example_dialog ''~/'' = Inr None \<and>
   listing_failed (exiting 255 ''/home/alice/docs/''
      (ssh_cmd_prefix no_identity example_host @ [filter_cmd ''~/'' ''d''])) \<and>
   candidates (fetch_and_filter_paths no_identity (exiting 255 ''/home/alice/docs/'')
      example_dialog ''~/'' ''d'') = [] \<and>
   listing_failed (exiting 0 '' \<newline>''
      (ssh_cmd_prefix no_identity example_host @ [remote_cmd ''~/''])) \<and>
   candidates (fetch_remote_paths no_identity (exiting 0 '' \<newline>'') example_dialog ''~/'') = []"
proof -
  have h: "selected_host example_dialog = Some example_host"
    by (simp add: example_dialog_def)
  have f1: "listing_failed (raising TimeoutExpired argv)" for argv
    by (simp add: listing_failed_def raising_def)
  have f2: "listing_failed (exiting 255 ''/home/alice/docs/'' argv)" for argv
    by (simp add: listing_failed_def exiting_def)
  have f3: "listing_failed (exiting 0 '' \<newline>'' argv)" for argv
    by (simp add: listing_failed_def exiting_def py_strip_def isspace_def)
  show ?thesis
    using h f1 f2 f3
      listing_failure_yields_no_candidates [OF h, of "raising TimeoutExpired" no_identity "''~/''" "''d''" "''~/''" TimeoutExpired]
      listing_failure_yields_no_candidates [OF h, of "exiting 255 ''/home/alice/docs/''" no_identity "''~/''" "''d''" "''~/''" TimeoutExpired]
      listing_failure_yields_no_candidates [OF h, of "exiting 0 '' \<newline>''" no_identity "''~/''" "''d''" "''~/''" TimeoutExpired]
    by simp
qed

text \<open>
  C7 (amended). The completer does not deduplicate. The candidate list holds, in the
  order of the listing, one candidate for every raw line that is not empty once trimmed
  of whitespace and trailing separators: nothing else is removed. So it has no two equal
  entries exactly when no two of these lines give the same candidate; when no rewriting
  applies (no cached home directory, or a query that is not home-relative), exactly when
  the trimmed lines are pairwise distinct.
\<close>

theorem candidates_are_not_deduplicated:
  "filter_loop using_tilde home raws
     = map (\<lambda>p. (if using_tilde \<and> truthy home \<and> startswith p (the home)
                  then CHR ''~'' # drop (length (the home)) p else p) @ ''/'')
         (filter (\<lambda>p. p \<noteq> []) (map (\<lambda>raw. rstrip_slash (py_strip raw)) raws)) \<and>
   remote_loop using_tilde home raws
     = map (\<lambda>p. (if using_tilde \<and> truthy home \<and> startswith p (the home)
                  then CHR ''~'' # drop (length (the home)) p else p) @ ''/'')
         (filter (\<lambda>p. p \<noteq> []) (map (\<lambda>raw. rstrip_slash (py_strip raw)) raws)) \<and>
   length (filter_loop using_tilde home raws)
     = length (filter (\<lambda>raw. rstrip_slash (py_strip raw) \<noteq> []) raws) \<and>
   length (remote_loop using_tilde home raws)
     = length (filter (\<lambda>raw. rstrip_slash (py_strip raw) \<noteq> []) raws) \<and>
   (\<not> (using_tilde \<and> truthy home) \<longrightarrow>
      distinct (filter_loop using_tilde home raws)
        = distinct (filter (\<lambda>p. p \<noteq> []) (map (\<lambda>raw. rstrip_slash (py_strip raw)) raws)) \<and>
      distinct (remote_loop using_tilde home raws)
        = distinct (filter (\<lambda>p. p \<noteq> []) (map (\<lambda>raw. rstrip_slash (py_strip raw)) raws)))"
proof -
  let ?ps = "filter (\<lambda>p. p \<noteq> []) (map (\<lambda>raw. rstrip_slash (py_strip raw)) raws)"
  have a: "filter_loop using_tilde home raws
     = map (\<lambda>p. (if using_tilde \<and> truthy home \<and> startswith p (the home)
                  then CHR ''~'' # drop (length (the home)) p else p) @ ''/'') ?ps"
    by (rule filter_loop_general)
  have b: "remote_loop using_tilde home raws
     = map (\<lambda>p. (if using_tilde \<and> truthy home \<and> startswith p (the home)
                  then CHR ''~'' # drop (length (the home)) p else p) @ ''/'') ?ps"
    using a by (simp only: remote_loop_eq_filter_loop)
  have len: "length ?ps = length (filter (\<lambda>raw. rstrip_slash (py_strip raw) \<noteq> []) raws)"
    by (simp add: filter_map comp_def)
  have c: "length (filter_loop using_tilde home raws)
     = length (filter (\<lambda>raw. rstrip_slash (py_strip raw) \<noteq> []) raws)"
    using len by (simp only: a length_map)
  have d: "length (remote_loop using_tilde home raws)
     = length (filter (\<lambda>raw. rstrip_slash (py_strip raw) \<noteq> []) raws)"
    using c by (simp only: remote_loop_eq_filter_loop)
  have e: "\<not> (using_tilde \<and> truthy home) \<longrightarrow>
      distinct (filter_loop using_tilde home raws) = distinct ?ps \<and>
      distinct (remote_loop using_tilde home raws) = distinct ?ps"
  proof
    assume h: "\<not> (using_tilde \<and> truthy home)"
    have inj: "inj_on (\<lambda>p. p @ ''/'') (set ?ps)"
      by (rule inj_onI) simp
    have "filter_loop using_tilde home raws = map (\<lambda>p. p @ ''/'') ?ps"
      using h by (rule filter_loop_plain)
    then have "distinct (filter_loop using_tilde home raws) = distinct ?ps"
      using inj by (simp only: distinct_map) simp
    then show "distinct (filter_loop using_tilde home raws) = distinct ?ps \<and>
      distinct (remote_loop using_tilde home raws) = distinct ?ps"
      by (simp only: remote_loop_eq_filter_loop)
  qed
  from a b c d e show ?thesis by (intro conjI)
qed

theorem candidates_are_not_deduplicated_witness:
  "\<not> (False \<and> truthy (Some ''/home/alice'')) \<and>
   filter_loop False (Some ''/home/alice'') [''/tmp/a/'', ''//'', ''/tmp/b//'']
     = [''/tmp/a/'', ''/tmp/b/''] \<and>
   length (filter_loop False (Some ''/home/alice'') [''/tmp/a/'', ''//'', ''/tmp/b//'']) = 2 \<and>
   distinct (filter_loop False (Some ''/home/alice'') [''/tmp/a/'', ''//'', ''/tmp/b//'']) \<and>
   distinct (remote_loop False (Some ''/home/alice'') [''/tmp/a/'', ''//'', ''/tmp/b//''])"
proof -
  have m: "map (\<lambda>raw. rstrip_slash (py_strip raw)) [''/tmp/a/'', ''//'', ''/tmp/b//'']
             = [''/tmp/a'', [], ''/tmp/b'']"
    by code_simp
  have e: "filter_loop False (Some ''/home/alice'') [''/tmp/a/'', ''//'', ''/tmp/b//'']
     = [''/tmp/a/'', ''/tmp/b/'']" by code_simp
  show ?thesis
    using m e
      candidates_are_not_deduplicated [where using_tilde = False
        and home = "Some ''/home/alice''" and raws = "[''/tmp/a/'', ''//'', ''/tmp/b//'']"]
    by (simp del: filter_loop.simps remote_loop.simps)
qed

text \<open>
  C7 as stated fails on the listing of \<open>/tmp/x/\<close> and \<open>/tmp/x//\<close>: both lines
  give \<open>/tmp/x/\<close>, and the list handed over holds it twice.
\<close>

theorem duplicate_candidates_counterexample:
  "candidates (fetch_and_filter_paths no_identity (listing ''/tmp/x/\<newline>/tmp/x//'')
      example_dialog ''/tmp/'' ''x'') = [''/tmp/x/'', ''/tmp/x/''] \<and>
   \<not> distinct (candidates (fetch_and_filter_paths no_identity
      (listing ''/tmp/x/\<newline>/tmp/x//'') example_dialog ''/tmp/'' ''x'')) \<and>
   candidates (fetch_remote_paths no_identity (listing ''/tmp/x/\<newline>/tmp/x//'')
      example_dialog ''/tmp/'') = [''/tmp/x/'', ''/tmp/x/''] \<and>
   \<not> distinct (candidates (fetch_remote_paths no_identity
      (listing ''/tmp/x/\<newline>/tmp/x//'') example_dialog ''/tmp/''))"
  by code_simp



text \<open>
  C9. A listing that fails, or that leaves no candidate, changes nothing in the dialog:
  the stored list \<open>destination_paths\<close> and the option list of the combobox are as
  before. \<open>update_and_show_dropdown\<close> and \<open>update_destination_values\<close> write the
  delivered list only when it is not empty.
\<close>

theorem failed_query_keeps_completions:
  "(candidates r = [] \<longrightarrow> deliver s r = s) \<and>
   (selected_host s = Some h \<and>
    listing_failed (run (ssh_cmd_prefix pe h @ [filter_cmd dir_path prefix])) \<longrightarrow>
      deliver s (fetch_and_filter_paths pe run s dir_path prefix) = s) \<and>
   (selected_host s = Some h \<and>
    listing_failed (run (ssh_cmd_prefix pe h @ [remote_cmd remote_path])) \<longrightarrow>
      deliver s (fetch_remote_paths pe run s remote_path) = s) \<and>
   update_and_show_dropdown s paths = (if paths = [] then s else
      s\<lparr>destination_paths := paths, dest_combo_values := paths\<rparr>) \<and>
   update_destination_values s paths = (if paths = [] then s else
      s\<lparr>destination_paths := paths, dest_combo_values := paths\<rparr>)"
proof -
  have a: "candidates r = [] \<longrightarrow> deliver s r = s"
    using deliver_nothing by blast
  have b: "selected_host s = Some h \<and>
    listing_failed (run (ssh_cmd_prefix pe h @ [filter_cmd dir_path prefix])) \<longrightarrow>
      deliver s (fetch_and_filter_paths pe run s dir_path prefix) = s"
    using failed_filter_none [of s h run pe dir_path prefix] by auto
  have c: "selected_host s = Some h \<and>
    listing_failed (run (ssh_cmd_prefix pe h @ [remote_cmd remote_path])) \<longrightarrow>
      deliver s (fetch_remote_paths pe run s remote_path) = s"
    using failed_remote_none [of s h run pe remote_path] by auto
  have d: "update_and_show_dropdown s paths = (if paths = [] then s else
      s\<lparr>destination_paths := paths, dest_combo_values := paths\<rparr>)"
    by (simp add: update_and_show_dropdown_def Let_def)
  have e: "update_destination_values s paths = (if paths = [] then s else
      s\<lparr>destination_paths := paths, dest_combo_values := paths\<rparr>)"
    by (simp add: update_destination_values_def)
  from a b c d e show ?thesis by blast
qed

theorem failed_query_keeps_completions_witness:
  "selected_host example_dialog = Some example_host \<and>
   listing_failed (raising TimeoutExpired
      (ssh_cmd_prefix no_identity example_host @ [filter_cmd ''~/'' ''d''])) \<and>
   deliver example_dialog
      (fetch_and_filter_paths no_identity (raising TimeoutExpired) example_dialog ''~/'' ''d'')
     = example_dialog \<and>
   listing_failed (exiting 255 []
      (ssh_cmd_prefix no_identity example_host @ [remote_cmd ''~/''])) \<and>
   deliver example_dialog
      (fetch_remote_paths no_identity (exiting 255 []) example_dialog ''~/'')
     = example_dialog \<and>
   candidates (fetch_remote_paths no_identity (listing ''/\<newline>//'') example_dialog ''~/'') = [] \<and>
   deliver example_dialog
      (fetch_remote_paths no_identity (listing ''/\<newline>//'') example_dialog ''~/'')
     = example_dialog \<and>
   destination_paths (update_destination_values example_dialog []) = [''~/'']"
proof -
  have h: "selected_host example_dialog = Some example_host"
    by (simp add: example_dialog_def)
  have f1: "listing_failed (raising TimeoutExpired argv)" for argv
    by (simp add: listing_failed_def raising_def)
  have f2: "listing_failed (exiting 255 [] argv)" for argv
    by (simp add: listing_failed_def exiting_def)
  have e: "candidates (fetch_remote_paths no_identity (listing ''/\<newline>//'') example_dialog ''~/'')
             = []"
    by code_simp
  have d: "destination_paths example_dialog = [''~/'']"
    by (simp add: example_dialog_def)
  show ?thesis
    using h f1 f2 e d
      failed_query_keeps_completions [where s = example_dialog and h = example_host
        and pe = no_identity and run = "raising TimeoutExpired" and dir_path = "''~/''"
        and prefix = "''d''" and remote_path = "''~/''" and paths = "[]"
        and r = "fetch_remote_paths no_identity (listing ''/\<newline>//'') example_dialog ''~/''"]
      failed_query_keeps_completions [where s = example_dialog and h = example_host
        and pe = no_identity and run = "exiting 255 []" and dir_path = "''~/''"
        and prefix = "''d''" and remote_path = "''~/''" and paths = "[]"
        and r = "Inr None"]
    by simp
qed

text \<open>
  C10. The move into the import directory never overwrites a file. The destination
  chosen does not exist. When \<open>filename\<close> is free in the import directory the file
  goes there; otherwise, with \<open>(base, ext) = splitext(filename)\<close>, it goes to
  \<open>base_N.ext\<close> for the least \<open>N \<ge> 1\<close> whose name does not exist: every smaller
  positive number is taken. Whatever the move does, each file that existed, other than
  the moved one, keeps its content, and after a successful move the destination holds
  the content of the moved file.
\<close>

theorem move_never_overwrites:
  "\<not> os_path_exists fs (choose_destination fs import_dir filename) \<and>
   (\<not> os_path_exists fs (path_join import_dir filename) \<longrightarrow>
      choose_destination fs import_dir filename = path_join import_dir filename) \<and>
   (os_path_exists fs (path_join import_dir filename) \<and> splitext filename = (base, ext) \<longrightarrow>
      (\<exists>N. 1 \<le> N \<and>
           choose_destination fs import_dir filename
             = path_join import_dir (base @ ''_'' @ str_of_nat N @ ext) \<and>
           (\<forall>k. 1 \<le> k \<and> k < N \<longrightarrow>
                os_path_exists fs (path_join import_dir (base @ ''_'' @ str_of_nat k @ ext))))) \<and>
   (move_to_import_dir fs import_dir file_path filename = (fs', moved) \<and>
    p \<noteq> file_path \<and> map_of fs p = Some content \<longrightarrow> map_of fs' p = Some content) \<and>
   (move_to_import_dir fs import_dir file_path filename = (fs', True) \<longrightarrow>
      map_of fs' (choose_destination fs import_dir filename) = map_of fs file_path)"
proof -
  have a: "\<not> os_path_exists fs (choose_destination fs import_dir filename)"
    by (rule choose_destination_free)
  have b: "\<not> os_path_exists fs (path_join import_dir filename) \<longrightarrow>
      choose_destination fs import_dir filename = path_join import_dir filename"
    using choose_destination_fresh by blast
  have c: "os_path_exists fs (path_join import_dir filename) \<and> splitext filename = (base, ext) \<longrightarrow>
      (\<exists>N. 1 \<le> N \<and>
           choose_destination fs import_dir filename
             = path_join import_dir (base @ ''_'' @ str_of_nat N @ ext) \<and>
           (\<forall>k. 1 \<le> k \<and> k < N \<longrightarrow>
                os_path_exists fs (path_join import_dir (base @ ''_'' @ str_of_nat k @ ext))))"
    using choose_destination_numbered [of fs import_dir filename base ext] by blast
  have d: "move_to_import_dir fs import_dir file_path filename = (fs', moved) \<and>
    p \<noteq> file_path \<and> map_of fs p = Some content \<longrightarrow> map_of fs' p = Some content"
    using move_keeps_existing [of fs import_dir file_path filename fs' moved p content] by blast
  have e: "move_to_import_dir fs import_dir file_path filename = (fs', True) \<longrightarrow>
      map_of fs' (choose_destination fs import_dir filename) = map_of fs file_path"
    using move_target_content by blast
  from a b c d e show ?thesis by blast
qed

theorem move_never_overwrites_witness:
  "os_path_exists example_fs (path_join ''/m'' ''song.mp3'') \<and>
   splitext ''song.mp3'' = (''song'', ''.mp3'') \<and>
   choose_destination example_fs ''/m'' ''song.mp3'' = ''/m/song_2.mp3'' \<and>
   \<not> os_path_exists example_fs ''/m/song_2.mp3'' \<and>
   \<not> os_path_exists example_fs (path_join ''/m'' ''tune.m4a'') \<and>
   choose_destination example_fs ''/m'' ''tune.m4a'' = ''/m/tune.m4a'' \<and>
   move_to_import_dir example_fs ''/m'' ''/in/song.mp3'' ''song.mp3''
     = ([(''/m/song_2.mp3'', ''third''), (''/m/song.mp3'', ''first''),
         (''/m/song_1.mp3'', ''second'')], True) \<and>
   map_of [(''/m/song_2.mp3'', ''third''), (''/m/song.mp3'', ''first''),
           (''/m/song_1.mp3'', ''second'')] ''/m/song.mp3'' = Some ''first'' \<and>
   map_of [(''/m/song_2.mp3'', ''third''), (''/m/song.mp3'', ''first''),
           (''/m/song_1.mp3'', ''second'')] ''/m/song_2.mp3'' = Some ''third''"
proof -
  have e1: "os_path_exists example_fs (path_join ''/m'' ''song.mp3'')" by code_simp
  have e2: "splitext ''song.mp3'' = (''song'', ''.mp3'')" by code_simp
  have e3: "choose_destination example_fs ''/m'' ''song.mp3'' = ''/m/song_2.mp3''" by code_simp
  have e4: "\<not> os_path_exists example_fs (path_join ''/m'' ''tune.m4a'')" by code_simp
  have e5: "move_to_import_dir example_fs ''/m'' ''/in/song.mp3'' ''song.mp3''
     = ([(''/m/song_2.mp3'', ''third''), (''/m/song.mp3'', ''first''),
         (''/m/song_1.mp3'', ''second'')], True)" by code_simp
  have e6: "map_of example_fs ''/m/song.mp3'' = Some ''first''" by code_simp
  have e7: "map_of example_fs ''/in/song.mp3'' = Some ''third''" by code_simp
  have e8: "path_join ''/m'' ''tune.m4a'' = ''/m/tune.m4a''" by code_simp
  show ?thesis
    using e1 e2 e3 e4 e5 e6 e7 e8
      move_never_overwrites [where fs = example_fs and import_dir = "''/m''"
        and filename = "''song.mp3''" and base = "''song''" and ext = "''.mp3''"
        and file_path = "''/in/song.mp3''" and moved = True and p = "''/m/song.mp3''"
        and content = "''first''"
        and fs' = "[(''/m/song_2.mp3'', ''third''), (''/m/song.mp3'', ''first''),
                    (''/m/song_1.mp3'', ''second'')]"]
      move_never_overwrites [where fs = example_fs and import_dir = "''/m''"
        and filename = "''tune.m4a''" and base = "''tune''" and ext = "''.m4a''"
        and file_path = "''/in/song.mp3''" and moved = True and p = "''/m/song.mp3''"
        and content = "''first''"
        and fs' = "[]"]
    by simp
qed

end
